theory Spec2Isabelle
  imports Main
begin

section \<open>The scheduled-task form (ScheduledTaskForm.vue)\<close>

subsection \<open>Data\<close>

text \<open>
  The enumeration \<open>ScheduledTasksType\<close> of \<open>@/enums/app\<close>, with the five members the form
  refers to (the \<open>switch\<close> of \<open>handleSubmit\<close> and the \<open>v-if\<close> chain of the template).
\<close>

datatype ScheduledTasksType =
  RunScript | UpdateSubscription | UpdateRuleset | UpdatePlugin | RunPlugin

text \<open>
  The task record, with the eleven fields of the object literal at lines 28 to 40.
  The field \<open>id\<close> is named \<open>id_t\<close> (\<open>id\<close> is the identity function of HOL) and \<open>type\<close>
  is named \<open>type_t\<close>. The timestamp \<open>lastTime\<close> is a JavaScript number holding an integer.
\<close>

record ScheduledTask =
  id_t :: string
  name :: string
  type_t :: ScheduledTasksType
  subscriptions :: "string list"
  rulesets :: "string list"
  plugins :: "string list"
  script :: string
  cron :: string
  notification :: bool
  disabled :: bool
  lastTime :: int

text \<open>
  A value that a rejected promise or a \<open>throw\<close> carries: an \<open>Error\<close> object with its
  \<open>message\<close>, or any other value (the bridge rejects with plain strings).
\<close>

datatype thrown = ErrorObj string | Raw string

text \<open>What \<open>message.error\<close> is handed: a text, or the thrown value itself.\<close>

datatype shown = Text string | Value thrown

text \<open>
  The calls the form makes to its collaborators, in the order it makes them. The log is
  the observable behaviour of \<open>handleSubmit\<close>.
\<close>

datatype effect =
  MessageError shown
| ConsoleError thrown
| AddScheduledTask ScheduledTask
| EditScheduledTask string ScheduledTask
| HandleCancel

text \<open>
  The collaborators, none of them under \<open>src/\<close>, as parameters:
  \<^item> \<open>ValidateCron\<close>: the bridge call; \<open>None\<close> when the promise resolves, \<open>Some e\<close> when
    it rejects with \<open>e\<close>;
  \<^item> \<open>subscribes\<close>, \<open>rulesetsOf\<close>, \<open>pluginsOf\<close>: the ids of the entries that the three
    stores hold at the time of the call, in the order of the collections;
  \<^item> \<open>addScheduledTask\<close>, \<open>editScheduledTask\<close>: the outcome of the store's persistence
    calls (\<open>None\<close>: resolved);
  \<^item> \<open>cancelOutcome\<close>: the outcome of the injected \<open>cancel\<close> function, which is called
    inside the \<open>try\<close> block.
\<close>

record form_env =
  ValidateCron :: "string \<Rightarrow> thrown option"
  subscribes :: "string list"
  rulesetsOf :: "string list"
  pluginsOf :: "string list"
  addScheduledTask :: "ScheduledTask \<Rightarrow> thrown option"
  editScheduledTask :: "string \<Rightarrow> ScheduledTask \<Rightarrow> thrown option"
  cancelOutcome :: "thrown option"

text \<open>
  Modelled from the spec: the stores' lookups \<open>getSubscribeById\<close>, \<open>getRulesetById\<close> and
  \<open>getPluginById\<close> are not under \<open>src/\<close>. A lookup returns the entry of the collection
  that has the id, or \<open>undefined\<close>; the entry is represented by its id.
\<close>

definition getSubscribeById :: "form_env \<Rightarrow> string \<Rightarrow> string option" where
  "getSubscribeById env i = find (\<lambda>s. s = i) (subscribes env)"

definition getRulesetById :: "form_env \<Rightarrow> string \<Rightarrow> string option" where
  "getRulesetById env i = find (\<lambda>s. s = i) (rulesetsOf env)"

definition getPluginById :: "form_env \<Rightarrow> string \<Rightarrow> string option" where
  "getPluginById env i = find (\<lambda>s. s = i) (pluginsOf env)"

text \<open>JavaScript truthiness of an optional value that is an object when present.\<close>

definition truthy :: "'a option \<Rightarrow> bool" where
  "truthy v = (case v of None \<Rightarrow> False | Some _ \<Rightarrow> True)"

text \<open>
  JavaScript truthiness of a string: the empty string is falsy. For the optional prop
  \<open>id?: string\<close>, \<open>undefined\<close> is falsy as well.
\<close>

definition truthy_str :: "string \<Rightarrow> bool" where
  "truthy_str s = (s \<noteq> [])"

definition truthy_prop :: "string option \<Rightarrow> bool" where
  "truthy_prop p = (case p of None \<Rightarrow> False | Some s \<Rightarrow> truthy_str s)"

text \<open>The state of the component: the two refs, and the log of calls made so far.\<close>

record form_state =
  task :: ScheduledTask
  loading :: bool
  calls :: "effect list"

subsection \<open>\<open>handleSubmit\<close>\<close>

text \<open>The \<open>switch\<close> on the task's type, lines 60 to 73.\<close>

definition filter_refs :: "form_env \<Rightarrow> ScheduledTask \<Rightarrow> ScheduledTask" where
  "filter_refs env t =
     (case type_t t of
        UpdateSubscription \<Rightarrow>
          t\<lparr>subscriptions := filter (\<lambda>i. truthy (getSubscribeById env i)) (subscriptions t)\<rparr>
      | UpdateRuleset \<Rightarrow>
          t\<lparr>rulesets := filter (\<lambda>i. truthy (getRulesetById env i)) (rulesets t)\<rparr>
      | UpdatePlugin \<Rightarrow>
          t\<lparr>plugins := filter (\<lambda>i. truthy (getPluginById env i)) (plugins t)\<rparr>
      | RunPlugin \<Rightarrow>
          t\<lparr>plugins := filter (\<lambda>i. truthy (getPluginById env i)) (plugins t)\<rparr>
      | RunScript \<Rightarrow> t)"

text \<open>
  The second \<open>try\<close> block, lines 75 to 85: the persistence call chosen by \<open>props.id\<close>, then
  \<open>handleCancel()\<close>; whatever either throws is logged and shown.
\<close>

definition persist_call ::
  "form_env \<Rightarrow> string option \<Rightarrow> ScheduledTask \<Rightarrow> effect \<times> thrown option" where
  "persist_call env props_id t =
     (case props_id of
        Some i \<Rightarrow>
          (if truthy_str i then (EditScheduledTask i t, editScheduledTask env i t)
           else (AddScheduledTask t, addScheduledTask env t))
      | None \<Rightarrow> (AddScheduledTask t, addScheduledTask env t))"

definition persist :: "form_env \<Rightarrow> string option \<Rightarrow> ScheduledTask \<Rightarrow> effect list" where
  "persist env props_id t =
     (case persist_call env props_id t of
        (call, Some e) \<Rightarrow> [call, ConsoleError e, MessageError (Value e)]
      | (call, None) \<Rightarrow>
          (case cancelOutcome env of
             None \<Rightarrow> [call, HandleCancel]
           | Some e \<Rightarrow> [call, HandleCancel, ConsoleError e, MessageError (Value e)]))"

definition handleSubmit :: "form_env \<Rightarrow> string option \<Rightarrow> form_state \<Rightarrow> form_state" where
  "handleSubmit env props_id st =
     (case ValidateCron env (cron (task st)) of
        Some e \<Rightarrow> st\<lparr>calls := calls st @ [MessageError (Value e)]\<rparr>
      | None \<Rightarrow>
          (let st1 = st\<lparr>loading := True\<rparr>;
               st2 = st1\<lparr>task := filter_refs env (task st1)\<rparr>;
               st3 = st2\<lparr>calls := calls st2 @ persist env props_id (task st2)\<rparr>
           in st3\<lparr>loading := False\<rparr>))"

subsection \<open>\<open>handleUse\<close>\<close>

text \<open>
  \<open>Array.prototype.findIndex\<close>: the index of the first element that satisfies the
  predicate, \<open>-1\<close> when there is none.
\<close>

fun findIndex_from :: "('a \<Rightarrow> bool) \<Rightarrow> 'a list \<Rightarrow> int \<Rightarrow> int" where
  "findIndex_from p [] k = -1"
| "findIndex_from p (x # xs) k = (if p x then k else findIndex_from p xs (k + 1))"

definition findIndex :: "('a \<Rightarrow> bool) \<Rightarrow> 'a list \<Rightarrow> int" where
  "findIndex p xs = findIndex_from p xs 0"

text \<open>
  \<open>Array.prototype.splice(start, deleteCount)\<close> with no inserted items: a negative start
  counts from the end, and the start is clamped to the array.
\<close>

definition splice :: "'a list \<Rightarrow> int \<Rightarrow> nat \<Rightarrow> 'a list" where
  "splice xs start cnt =
     (let n = int (length xs);
          s = (if start < 0 then max 0 (n + start) else min start n)
      in take (nat s) xs @ drop (nat s + cnt) xs)"

definition push :: "'a list \<Rightarrow> 'a \<Rightarrow> 'a list" where
  "push xs x = xs @ [x]"

text \<open>Lines 90 to 97. The array is mutated in place; the function returns its new contents.\<close>

definition handleUse :: "string list \<Rightarrow> string \<Rightarrow> string list" where
  "handleUse list i =
     (let idx = findIndex (\<lambda>v. v = i) list
      in if idx \<noteq> -1 then splice list idx 1 else push list i)"

subsection \<open>The initial record and the submit control\<close>

text \<open>The object literal of lines 28 to 40; \<open>fresh\<close> is what \<open>sampleID()\<close> returned.\<close>

definition default_task :: "string \<Rightarrow> ScheduledTask" where
  "default_task fresh =
     \<lparr>id_t = fresh, name = [], type_t = RunScript, subscriptions = [], rulesets = [],
      plugins = [], script = [], cron = [], notification = False, disabled = False,
      lastTime = 0\<rparr>"

text \<open>
  Lines 28 to 40 and 99 to 104, on values: \<open>lookup\<close> is the store's
  \<open>getScheduledTaskById\<close>, and a deep clone of a record is a record with the same contents
  (the sharing that the clone removes is the subject of the store model further down).
\<close>

definition initial_task ::
  "string \<Rightarrow> (string \<Rightarrow> ScheduledTask option) \<Rightarrow> string option \<Rightarrow> ScheduledTask" where
  "initial_task fresh lookup props_id =
     (case props_id of
        None \<Rightarrow> default_task fresh
      | Some i \<Rightarrow>
          (if truthy_str i
           then (case lookup i of Some s \<Rightarrow> s | None \<Rightarrow> default_task fresh)
           else default_task fresh))"

text \<open>The \<open>disabled\<close> attribute of the submit button, line 122.\<close>

definition submit_disabled :: "ScheduledTask \<Rightarrow> bool" where
  "submit_disabled t = (\<not> truthy_str (name t) \<or> \<not> truthy_str (cron t))"

text \<open>
  Modelled from the spec: the \<open>Button\<close> component is not under \<open>src/\<close>. A disabled button
  does not run its \<open>onClick\<close> handler; an enabled one runs it.
\<close>

definition click_submit :: "form_env \<Rightarrow> string option \<Rightarrow> form_state \<Rightarrow> form_state" where
  "click_submit env props_id st =
     (if submit_disabled (task st) then st else handleSubmit env props_id st)"

section \<open>The code editor (CodeMirror wrapper)\<close>

subsection \<open>The editor view\<close>

text \<open>
  What the component reads and writes of a CodeMirror \<open>EditorView\<close>: the document
  (\<open>view.state.doc.toString()\<close>) and the start of the first selection range
  (\<open>view.state.selection.ranges[0].from\<close>). Strings are lists of code units, and the
  positions of CodeMirror and of Prettier count the same units.
\<close>

record view =
  doc :: string
  sel :: nat

text \<open>
  The argument of \<open>view.dispatch\<close> as the component builds it: one change
  \<open>{from, to, insert}\<close> and, in \<open>formatDoc\<close>, a selection with \<open>anchor = head\<close>.
\<close>

record tr_spec =
  change_from :: nat
  change_to :: nat
  change_insert :: string
  selection :: "int option"

text \<open>
  CodeMirror is a third-party library, and \<open>view.dispatch\<close> is a parameter of the
  functions below: from the view and the transaction to the view that CodeMirror makes of
  them, or to what the call throws. A call that throws leaves the view as it was. Nothing
  is assumed about the result: CodeMirror normalises line breaks in the inserted text,
  maps the old selection through the change when the transaction has none, and refuses
  positions outside the document.
\<close>

type_synonym dispatcher = "view \<Rightarrow> tr_spec \<Rightarrow> thrown + view"

text \<open>\<open>update.docChanged\<close>: the transaction's change set is not empty.\<close>

definition docChanged :: "tr_spec \<Rightarrow> bool" where
  "docChanged tr = (change_from tr \<noteq> change_to tr \<or> change_insert tr \<noteq> [])"

subsection \<open>\<open>formatDoc\<close>\<close>








subsection \<open>The model watcher\<close>

text \<open>
  The component: the \<open>v-model\<close> value, the view that \<open>editorView || mergeView?.b\<close> selects
  (\<open>None\<close> before \<open>initEditor\<close> has run), the transactions that the watcher handed to
  \<open>view.dispatch\<close>, the \<open>change\<close> events emitted, and what the watcher threw to Vue's error
  handler.
\<close>

record component =
  model :: string
  cm_view :: "view option"
  watcher_dispatched :: "tr_spec list"
  emitted :: "string list"
  uncaught :: "thrown list"

text \<open>The body of \<open>onChange\<close>, lines 46 to 49, when the debounce timer fires.\<close>

definition onChange :: "component \<Rightarrow> string \<Rightarrow> component" where
  "onChange c content = c\<lparr>model := content, emitted := emitted c @ [content]\<rparr>"

text \<open>The transaction of the watcher, lines 100 to 106.\<close>

definition watcher_tr :: "view \<Rightarrow> string \<Rightarrow> tr_spec" where
  "watcher_tr v content =
     \<lparr>change_from = 0, change_to = length (doc v), change_insert = content,
      selection = None\<rparr>"

text \<open>
  The reactive cycle. \<open>watch_model c content\<close> is the callback of \<open>watch(model, ...)\<close>,
  lines 97 to 108, run with the new value of the model: when there is a view and the
  content is not its document, it dispatches, the update listener of lines 146 to 150 sees
  the transaction and, the document having changed, calls \<open>onChange\<close>, which assigns the
  model, which runs the watcher again. The watcher is taken to run on every assignment of
  the model (Vue runs it on fewer: only when the value has changed), and the debounce of
  \<open>onChange\<close> only delays the call. The text that \<open>onChange\<close> receives is the document of
  the view after the dispatch, whatever CodeMirror made of the inserted text. The
  recursion is the cycle; its termination proof is that the cycle ends.
\<close>

function watch_model :: "dispatcher \<Rightarrow> component \<Rightarrow> string \<Rightarrow> component" where
  "watch_model dispatch c content =
     (case cm_view c of
        None \<Rightarrow> c
      | Some v \<Rightarrow>
          (if content \<noteq> doc v
           then
             (let c0 = c\<lparr>watcher_dispatched := watcher_dispatched c @ [watcher_tr v content]\<rparr>
              in case dispatch v (watcher_tr v content) of
                   Inl e \<Rightarrow> c0\<lparr>uncaught := uncaught c0 @ [e]\<rparr>
                 | Inr v' \<Rightarrow>
                     (let c1 = c0\<lparr>cm_view := Some v'\<rparr>
                      in if docChanged (watcher_tr v content)
                         then watch_model dispatch (onChange c1 (doc v')) (doc v')
                         else c1))
           else c))"
  by pat_completeness auto
termination
  by (relation "measure (\<lambda>(dispatch, c, content).
        case cm_view c of None \<Rightarrow> 0 | Some v \<Rightarrow> (if content \<noteq> doc v then 1 else 0))")
     (auto simp: onChange_def)

section \<open>The form and the store share no object\<close>

text \<open>
  JavaScript objects and arrays are references. To state what the clone at line 102 buys,
  the task objects and their three arrays live in a store of cells: an object holds the
  addresses of its arrays, and \<open>free\<close> is the next address never handed out.
\<close>

type_synonym addr = nat

record task_obj =
  o_id :: string
  o_name :: string
  o_type :: ScheduledTasksType
  o_subscriptions :: addr
  o_rulesets :: addr
  o_plugins :: addr
  o_script :: string
  o_cron :: string
  o_notification :: bool
  o_disabled :: bool
  o_lastTime :: int

record heap =
  objs :: "addr \<rightharpoonup> task_obj"
  arrs :: "addr \<rightharpoonup> string list"
  free :: addr

definition new_arr :: "heap \<Rightarrow> string list \<Rightarrow> addr \<times> heap" where
  "new_arr h xs = (free h, h\<lparr>arrs := (arrs h)(free h \<mapsto> xs), free := Suc (free h)\<rparr>)"

definition new_obj :: "heap \<Rightarrow> task_obj \<Rightarrow> addr \<times> heap" where
  "new_obj h ob = (free h, h\<lparr>objs := (objs h)(free h \<mapsto> ob), free := Suc (free h)\<rparr>)"

text \<open>The contents of an array cell; an address with no array reads as the empty array.\<close>

definition arr_at :: "heap \<Rightarrow> addr \<Rightarrow> string list" where
  "arr_at h a = (case arrs h a of None \<Rightarrow> [] | Some xs \<Rightarrow> xs)"

text \<open>The record that an object stands for: its fields, with the arrays read out.\<close>

definition task_of :: "heap \<Rightarrow> task_obj \<Rightarrow> ScheduledTask" where
  "task_of h ob =
     \<lparr>id_t = o_id ob, name = o_name ob, type_t = o_type ob,
      subscriptions = arr_at h (o_subscriptions ob), rulesets = arr_at h (o_rulesets ob),
      plugins = arr_at h (o_plugins ob), script = o_script ob, cron = o_cron ob,
      notification = o_notification ob, disabled = o_disabled ob, lastTime = o_lastTime ob\<rparr>"

definition task_at :: "heap \<Rightarrow> addr \<Rightarrow> ScheduledTask option" where
  "task_at h a = map_option (task_of h) (objs h a)"

text \<open>
  Modelled from the spec: \<open>deepClone\<close> of \<open>@/utils\<close> is not under \<open>src/\<close>. A deep clone is a
  new object with new arrays, equal in contents to the object cloned. The clone of an
  address that holds no object is \<open>None\<close>.
\<close>

definition deepClone :: "heap \<Rightarrow> addr \<Rightarrow> (addr \<times> heap) option" where
  "deepClone h a =
     (case objs h a of
        None \<Rightarrow> None
      | Some ob \<Rightarrow>
          (let (s, h1) = new_arr h (arr_at h (o_subscriptions ob));
               (r, h2) = new_arr h1 (arr_at h (o_rulesets ob));
               (p, h3) = new_arr h2 (arr_at h (o_plugins ob))
           in Some (new_obj h3 (ob\<lparr>o_subscriptions := s, o_rulesets := r, o_plugins := p\<rparr>))))"

text \<open>The object literal of lines 28 to 40: a new object with three new empty arrays.\<close>

definition new_default :: "heap \<Rightarrow> string \<Rightarrow> addr \<times> heap" where
  "new_default h fresh =
     (let (s, h1) = new_arr h [];
          (r, h2) = new_arr h1 [];
          (p, h3) = new_arr h2 []
      in new_obj h3
           \<lparr>o_id = fresh, o_name = [], o_type = RunScript, o_subscriptions = s,
            o_rulesets = r, o_plugins = p, o_script = [], o_cron = [],
            o_notification = False, o_disabled = False, o_lastTime = 0\<rparr>)"

text \<open>
  The setup of the component, lines 28 to 40 and 99 to 104: the address that \<open>task.value\<close>
  holds afterwards. \<open>lookup\<close> is the store's \<open>getScheduledTaskById\<close>, which returns the
  stored object itself.
\<close>

definition form_setup :: "heap \<Rightarrow> string \<Rightarrow> (string \<Rightarrow> addr option) \<Rightarrow> string option \<Rightarrow> addr \<times> heap" where
  "form_setup h fresh lookup props_id =
     (let (t, h1) = new_default h fresh
      in case props_id of
           None \<Rightarrow> (t, h1)
         | Some i \<Rightarrow>
             (if truthy_str i
              then (case lookup i of
                      None \<Rightarrow> (t, h1)
                    | Some s \<Rightarrow> (case deepClone h1 s of None \<Rightarrow> (t, h1) | Some r \<Rightarrow> r))
              else (t, h1)))"

text \<open>
  The same setup with the clone left out (\<open>task.value = s\<close>), to compare with.
\<close>

definition form_setup_shared :: "heap \<Rightarrow> string \<Rightarrow> (string \<Rightarrow> addr option) \<Rightarrow> string option \<Rightarrow> addr \<times> heap" where
  "form_setup_shared h fresh lookup props_id =
     (let (t, h1) = new_default h fresh
      in case props_id of
           None \<Rightarrow> (t, h1)
         | Some i \<Rightarrow>
             (if truthy_str i
              then (case lookup i of None \<Rightarrow> (t, h1) | Some s \<Rightarrow> (s, h1))
              else (t, h1)))"

text \<open>
  Every way the form changes its task: the \<open>v-model\<close> bindings of the template (name, cron,
  type, notification, script), the clicks that call \<open>handleUse\<close> on one of the three arrays,
  and the \<open>switch\<close> of \<open>handleSubmit\<close>, which assigns a new, filtered array.
\<close>

datatype mutation =
  SetName string
| SetCron string
| SetType ScheduledTasksType
| SetNotification bool
| SetScript string
| UseSubscription string
| UseRuleset string
| UsePlugin string
| FilterRefs

definition upd_obj :: "heap \<Rightarrow> addr \<Rightarrow> (task_obj \<Rightarrow> task_obj) \<Rightarrow> heap" where
  "upd_obj h t f = (case objs h t of None \<Rightarrow> h | Some ob \<Rightarrow> h\<lparr>objs := (objs h)(t \<mapsto> f ob)\<rparr>)"

text \<open>\<open>handleUse(list, id)\<close> on the array at an address: the cell is overwritten in place.\<close>

definition use_at :: "heap \<Rightarrow> addr \<Rightarrow> string \<Rightarrow> heap" where
  "use_at h a i = (case arrs h a of None \<Rightarrow> h | Some xs \<Rightarrow> h\<lparr>arrs := (arrs h)(a \<mapsto> handleUse xs i)\<rparr>)"

text \<open>The \<open>switch\<close> of lines 60 to 73: \<open>filter\<close> returns a new array, which is assigned.\<close>

definition filter_at :: "form_env \<Rightarrow> heap \<Rightarrow> addr \<Rightarrow> heap" where
  "filter_at env h t =
     (case objs h t of
        None \<Rightarrow> h
      | Some ob \<Rightarrow>
          (case o_type ob of
             UpdateSubscription \<Rightarrow>
               (let (a, h1) = new_arr h (filter (\<lambda>i. truthy (getSubscribeById env i))
                                            (arr_at h (o_subscriptions ob)))
                in upd_obj h1 t (\<lambda>ob. ob\<lparr>o_subscriptions := a\<rparr>))
           | UpdateRuleset \<Rightarrow>
               (let (a, h1) = new_arr h (filter (\<lambda>i. truthy (getRulesetById env i))
                                            (arr_at h (o_rulesets ob)))
                in upd_obj h1 t (\<lambda>ob. ob\<lparr>o_rulesets := a\<rparr>))
           | UpdatePlugin \<Rightarrow>
               (let (a, h1) = new_arr h (filter (\<lambda>i. truthy (getPluginById env i))
                                            (arr_at h (o_plugins ob)))
                in upd_obj h1 t (\<lambda>ob. ob\<lparr>o_plugins := a\<rparr>))
           | RunPlugin \<Rightarrow>
               (let (a, h1) = new_arr h (filter (\<lambda>i. truthy (getPluginById env i))
                                            (arr_at h (o_plugins ob)))
                in upd_obj h1 t (\<lambda>ob. ob\<lparr>o_plugins := a\<rparr>))
           | RunScript \<Rightarrow> h))"

definition mutate :: "form_env \<Rightarrow> addr \<Rightarrow> heap \<Rightarrow> mutation \<Rightarrow> heap" where
  "mutate env t h m =
     (case m of
        SetName v \<Rightarrow> upd_obj h t (\<lambda>ob. ob\<lparr>o_name := v\<rparr>)
      | SetCron v \<Rightarrow> upd_obj h t (\<lambda>ob. ob\<lparr>o_cron := v\<rparr>)
      | SetType v \<Rightarrow> upd_obj h t (\<lambda>ob. ob\<lparr>o_type := v\<rparr>)
      | SetNotification v \<Rightarrow> upd_obj h t (\<lambda>ob. ob\<lparr>o_notification := v\<rparr>)
      | SetScript v \<Rightarrow> upd_obj h t (\<lambda>ob. ob\<lparr>o_script := v\<rparr>)
      | UseSubscription i \<Rightarrow>
          (case objs h t of None \<Rightarrow> h | Some ob \<Rightarrow> use_at h (o_subscriptions ob) i)
      | UseRuleset i \<Rightarrow>
          (case objs h t of None \<Rightarrow> h | Some ob \<Rightarrow> use_at h (o_rulesets ob) i)
      | UsePlugin i \<Rightarrow>
          (case objs h t of None \<Rightarrow> h | Some ob \<Rightarrow> use_at h (o_plugins ob) i)
      | FilterRefs \<Rightarrow> filter_at env h t)"

definition mutations :: "form_env \<Rightarrow> addr \<Rightarrow> heap \<Rightarrow> mutation list \<Rightarrow> heap" where
  "mutations env t h ms = foldl (mutate env t) h ms"

text \<open>
  A store of cells as JavaScript builds them: every object and array sits below \<open>free\<close>,
  and every object's arrays exist.
\<close>

definition wf_heap :: "heap \<Rightarrow> bool" where
  "wf_heap h =
     ((\<forall>a. a \<in> dom (objs h) \<longrightarrow> a < free h) \<and>
      (\<forall>a. a \<in> dom (arrs h) \<longrightarrow> a < free h) \<and>
      (\<forall>a ob. objs h a = Some ob \<longrightarrow>
         o_subscriptions ob \<in> dom (arrs h) \<and> o_rulesets ob \<in> dom (arrs h) \<and>
         o_plugins ob \<in> dom (arrs h)))"

text \<open>Two stores agree below an address: the cells that existed are untouched.\<close>

definition same_below :: "addr \<Rightarrow> heap \<Rightarrow> heap \<Rightarrow> bool" where
  "same_below n h h' = (\<forall>a. a < n \<longrightarrow> objs h' a = objs h a \<and> arrs h' a = arrs h a)"

text \<open>
  The form owns its task from an address on: the object and its three arrays were
  allocated at or after it.
\<close>

definition owns :: "addr \<Rightarrow> heap \<Rightarrow> addr \<Rightarrow> bool" where
  "owns n h t =
     (n \<le> free h \<and> n \<le> t \<and>
      (\<exists>ob. objs h t = Some ob \<and> n \<le> o_subscriptions ob \<and> n \<le> o_rulesets ob \<and>
            n \<le> o_plugins ob))"

section \<open>Reading the log, and concrete inputs\<close>

text \<open>The task that a call hands to the store, for the two persistence calls.\<close>

fun persisted_task :: "effect \<Rightarrow> ScheduledTask option" where
  "persisted_task (AddScheduledTask t) = Some t"
| "persisted_task (EditScheduledTask i t) = Some t"
| "persisted_task _ = None"

definition persisted :: "effect list \<Rightarrow> ScheduledTask list" where
  "persisted es = List.map_filter persisted_task es"

text \<open>Whether a call is one of the store's two persistence calls.\<close>

fun is_persistence :: "effect \<Rightarrow> bool" where
  "is_persistence (AddScheduledTask t) = True"
| "is_persistence (EditScheduledTask i t) = True"
| "is_persistence _ = False"

text \<open>The calls that an invocation added to the log.\<close>

definition new_calls :: "form_state \<Rightarrow> form_state \<Rightarrow> effect list" where
  "new_calls st st' = drop (length (calls st)) (calls st')"

text \<open>
  A store with one subscription, one ruleset and one plugin; a bridge that accepts one
  cron expression; persistence that fails for the task id \<open>gone\<close>.
\<close>

definition ex_env :: form_env where
  "ex_env =
     \<lparr>ValidateCron = (\<lambda>c. if c = ''0 0 * * *'' then None else Some (Raw ''bad cron'')),
      subscribes = [''s1''], rulesetsOf = [''r1''], pluginsOf = [''p1''],
      addScheduledTask = (\<lambda>t. None),
      editScheduledTask = (\<lambda>i t. if i = ''gone'' then Some (Raw ''no such task'') else None),
      cancelOutcome = None\<rparr>"

definition ex_task :: ScheduledTask where
  "ex_task =
     \<lparr>id_t = ''t1'', name = ''nightly'', type_t = UpdateSubscription,
      subscriptions = [''s1'', ''s0''], rulesets = [''r0''], plugins = [],
      script = [], cron = ''0 0 * * *'', notification = False, disabled = False,
      lastTime = 0\<rparr>"

definition ex_state :: form_state where
  "ex_state = \<lparr>task = ex_task, loading = False, calls = []\<rparr>"

text \<open>The form of \<open>ex_state\<close> with a cron expression that the bridge rejects.\<close>

definition ex_state_bad_cron :: form_state where
  "ex_state_bad_cron = ex_state\<lparr>task := ex_task\<lparr>cron := ''every day''\<rparr>\<rparr>"


text \<open>
  In a concrete run the component calls \<open>view.dispatch\<close> at most once; \<open>answers r\<close> is
  the view whose dispatch has the outcome \<open>r\<close>. The outcomes used below are CodeMirror's
  for the transaction that the run hands over.
\<close>

definition answers :: "thrown + view \<Rightarrow> dispatcher" where
  "answers r v tr = r"





definition ex_component :: component where
  "ex_component =
     \<lparr>model = ''a = 1'', cm_view = Some \<lparr>doc = ''a = 1'', sel = 2\<rparr>,
      watcher_dispatched = [], emitted = [], uncaught = []\<rparr>"

text \<open>
  A store holding the task \<open>t1\<close> at address 3, with its arrays at 0, 1 and 2.
\<close>

definition ex_obj :: task_obj where
  "ex_obj =
     \<lparr>o_id = ''t1'', o_name = ''nightly'', o_type = UpdateSubscription,
      o_subscriptions = 0, o_rulesets = 1, o_plugins = 2, o_script = [],
      o_cron = ''0 0 * * *'', o_notification = False, o_disabled = False, o_lastTime = 0\<rparr>"

definition ex_heap :: heap where
  "ex_heap =
     \<lparr>objs = [3 \<mapsto> ex_obj],
      arrs = [0 \<mapsto> [''s1'', ''s0''], 1 \<mapsto> [''r0''], 2 \<mapsto> []],
      free = 4\<rparr>"

definition ex_lookup :: "string \<Rightarrow> addr option" where
  "ex_lookup i = (if i = ''t1'' then Some 3 else None)"

section \<open>Properties of the scheduled-task form\<close>

subsection \<open>Auxiliary facts\<close>

lemma truthy_find: "truthy (find (\<lambda>s. s = i) xs) = (i \<in> set xs)"
  by (induction xs) (auto simp: truthy_def)

lemma truthy_lookup:
  "truthy (getSubscribeById env i) = (i \<in> set (subscribes env))"
  "truthy (getRulesetById env i) = (i \<in> set (rulesetsOf env))"
  "truthy (getPluginById env i) = (i \<in> set (pluginsOf env))"
  by (simp_all add: getSubscribeById_def getRulesetById_def getPluginById_def truthy_find)

lemma filter_refs_lists:
  "subscriptions (filter_refs env t) =
     (if type_t t = UpdateSubscription
      then filter (\<lambda>i. i \<in> set (subscribes env)) (subscriptions t) else subscriptions t)"
  "rulesets (filter_refs env t) =
     (if type_t t = UpdateRuleset
      then filter (\<lambda>i. i \<in> set (rulesetsOf env)) (rulesets t) else rulesets t)"
  "plugins (filter_refs env t) =
     (if type_t t = UpdatePlugin \<or> type_t t = RunPlugin
      then filter (\<lambda>i. i \<in> set (pluginsOf env)) (plugins t) else plugins t)"
  by (cases "type_t t"; simp add: filter_refs_def truthy_lookup)+

lemma persist_call_cases:
  "persist_call env p t =
     (if truthy_prop p then (EditScheduledTask (the p) t, editScheduledTask env (the p) t)
      else (AddScheduledTask t, addScheduledTask env t))"
  by (simp add: persist_call_def truthy_prop_def split: option.splits)

lemma persist_call_not_cancel: "fst (persist_call env p t) \<noteq> HandleCancel"
  by (simp add: persist_call_cases)

lemma persisted_persist: "persisted (persist env p t) = [t]"
  by (auto simp: persist_def persisted_def persist_call_cases split: option.splits)

lemma handleSubmit_valid:
  "ValidateCron env (cron (task st)) = None \<Longrightarrow>
   handleSubmit env p st =
     st\<lparr>task := filter_refs env (task st),
        calls := calls st @ persist env p (filter_refs env (task st)),
        loading := False\<rparr>"
  by (simp add: handleSubmit_def Let_def)

lemma handleSubmit_invalid:
  "ValidateCron env (cron (task st)) = Some e \<Longrightarrow>
   handleSubmit env p st = st\<lparr>calls := calls st @ [MessageError (Value e)]\<rparr>"
  by (simp add: handleSubmit_def)

text \<open>The three runs of \<open>handleSubmit\<close> on the concrete form, computed once.\<close>

lemma ex_filter_refs: "filter_refs ex_env ex_task = ex_task\<lparr>subscriptions := [''s1'']\<rparr>"
  by (simp add: filter_refs_def ex_task_def ex_env_def truthy_lookup)

lemma ex_cron_ok: "ValidateCron ex_env (cron (task ex_state)) = None"
  by (simp add: ex_env_def ex_state_def ex_task_def)

lemma ex_cron_bad:
  "ValidateCron ex_env (cron (task ex_state_bad_cron)) = Some (Raw ''bad cron'')"
  by (simp add: ex_env_def ex_state_bad_cron_def ex_state_def ex_task_def)

lemma ex_new_calls:
  "new_calls ex_state (handleSubmit ex_env p ex_state) =
     persist ex_env p (ex_task\<lparr>subscriptions := [''s1'']\<rparr>)"
  by (simp add: handleSubmit_valid [OF ex_cron_ok] new_calls_def)
     (simp add: ex_state_def ex_filter_refs)

subsection \<open>What is persisted\<close>

text \<open>
  Claim C1, as stated, fails: only the list that the task's type selects is filtered.
  The form \<open>ex_state\<close> holds a task of type \<open>UpdateSubscription\<close> whose \<open>rulesets\<close> list
  names the ruleset \<open>r0\<close>, which the ruleset store does not hold; the record handed to
  \<open>addScheduledTask\<close> still names it.
\<close>

theorem handleSubmit_persists_unfiltered_ruleset:
  "persisted (new_calls ex_state (handleSubmit ex_env None ex_state)) =
     [ex_task\<lparr>subscriptions := [''s1'']\<rparr>] \<and>
   rulesets (ex_task\<lparr>subscriptions := [''s1'']\<rparr>) = [''r0''] \<and>
   ''r0'' \<notin> set (rulesetsOf ex_env)"
  by (simp add: ex_new_calls persisted_persist) (simp add: ex_task_def ex_env_def)

text \<open>
  Claim C1, amended: when the cron expression is accepted, \<open>handleSubmit\<close> hands exactly one
  record to the store, and in it the id list that the task's type selects
  (\<open>subscriptions\<close> for \<open>UpdateSubscription\<close>, \<open>rulesets\<close> for \<open>UpdateRuleset\<close>, \<open>plugins\<close> for
  \<open>UpdatePlugin\<close> and \<open>RunPlugin\<close>) is the form's list restricted to the ids of the entries
  that the corresponding store holds, in the same order; every other list, and every
  list of a \<open>RunScript\<close> task, is persisted as the form holds it.
\<close>

theorem handleSubmit_filters_list_of_type:
  assumes "ValidateCron env (cron (task st)) = None"
  shows "\<exists>t'. persisted (new_calls st (handleSubmit env p st)) = [t'] \<and>
     subscriptions t' =
       (if type_t (task st) = UpdateSubscription
        then filter (\<lambda>i. i \<in> set (subscribes env)) (subscriptions (task st))
        else subscriptions (task st)) \<and>
     rulesets t' =
       (if type_t (task st) = UpdateRuleset
        then filter (\<lambda>i. i \<in> set (rulesetsOf env)) (rulesets (task st))
        else rulesets (task st)) \<and>
     plugins t' =
       (if type_t (task st) = UpdatePlugin \<or> type_t (task st) = RunPlugin
        then filter (\<lambda>i. i \<in> set (pluginsOf env)) (plugins (task st))
        else plugins (task st))"
  using assms
  by (simp add: handleSubmit_valid new_calls_def persisted_persist filter_refs_lists)

text \<open>The amended claim at the concrete form: \<open>s0\<close> is dropped, \<open>r0\<close> is kept.\<close>

theorem handleSubmit_filters_list_of_type_witness:
  "ValidateCron ex_env (cron (task ex_state)) = None \<and>
   (\<exists>t'. persisted (new_calls ex_state (handleSubmit ex_env None ex_state)) = [t'] \<and>
      subscriptions t' = [''s1''] \<and> rulesets t' = [''r0''] \<and> plugins t' = [])"
proof -
  from handleSubmit_filters_list_of_type [OF ex_cron_ok, of None]
  obtain t' where "persisted (new_calls ex_state (handleSubmit ex_env None ex_state)) = [t']"
    and "subscriptions t' =
       (if type_t (task ex_state) = UpdateSubscription
        then filter (\<lambda>i. i \<in> set (subscribes ex_env)) (subscriptions (task ex_state))
        else subscriptions (task ex_state))"
    and "rulesets t' =
       (if type_t (task ex_state) = UpdateRuleset
        then filter (\<lambda>i. i \<in> set (rulesetsOf ex_env)) (rulesets (task ex_state))
        else rulesets (task ex_state))"
    and "plugins t' =
       (if type_t (task ex_state) = UpdatePlugin \<or> type_t (task ex_state) = RunPlugin
        then filter (\<lambda>i. i \<in> set (pluginsOf ex_env)) (plugins (task ex_state))
        else plugins (task ex_state))"
    by blast
  then have "persisted (new_calls ex_state (handleSubmit ex_env None ex_state)) = [t'] \<and>
      subscriptions t' = [''s1''] \<and> rulesets t' = [''r0''] \<and> plugins t' = []"
    by (simp add: ex_state_def ex_task_def ex_env_def)
  with ex_cron_ok show ?thesis by blast
qed

subsection \<open>Rejected cron expressions and failed persistence\<close>

text \<open>
  Claim C2: when \<open>ValidateCron\<close> rejects the task's cron expression with \<open>e\<close>,
  \<open>handleSubmit\<close> leaves the task record and the loading flag as they were, makes the single
  call \<open>message.error(e)\<close>, and hands nothing to \<open>addScheduledTask\<close> or \<open>editScheduledTask\<close>.
\<close>

theorem handleSubmit_cron_rejected:
  assumes "ValidateCron env (cron (task st)) = Some e"
  shows "task (handleSubmit env p st) = task st \<and>
         loading (handleSubmit env p st) = loading st \<and>
         new_calls st (handleSubmit env p st) = [MessageError (Value e)] \<and>
         filter is_persistence (new_calls st (handleSubmit env p st)) = []"
  using assms by (simp add: handleSubmit_invalid new_calls_def)

theorem handleSubmit_cron_rejected_witness:
  "ValidateCron ex_env (cron (task ex_state_bad_cron)) = Some (Raw ''bad cron'') \<and>
   task (handleSubmit ex_env (Some ''t1'') ex_state_bad_cron) = task ex_state_bad_cron \<and>
   new_calls ex_state_bad_cron (handleSubmit ex_env (Some ''t1'') ex_state_bad_cron) =
     [MessageError (Value (Raw ''bad cron''))]"
  using handleSubmit_cron_rejected [OF ex_cron_bad, of "Some ''t1''"] ex_cron_bad by simp

text \<open>
  Claim C3: when the cron expression is accepted and the persistence call that \<open>props.id\<close>
  selects rejects with \<open>e\<close>, the calls of \<open>handleSubmit\<close> are that persistence call,
  \<open>console.error(e)\<close> and \<open>message.error(e)\<close>; \<open>handleCancel\<close> is not among them, and the
  loading flag is false at the end.
\<close>

theorem handleSubmit_persistence_rejected:
  assumes "ValidateCron env (cron (task st)) = None"
    and "persist_call env p (filter_refs env (task st)) = (call, Some e)"
  shows "new_calls st (handleSubmit env p st) =
           [call, ConsoleError e, MessageError (Value e)] \<and>
         HandleCancel \<notin> set (new_calls st (handleSubmit env p st)) \<and>
         \<not> loading (handleSubmit env p st)"
  using assms persist_call_not_cancel [of env p "filter_refs env (task st)"]
  by (auto simp: handleSubmit_valid new_calls_def persist_def)

lemma ex_persist_call_gone:
  "persist_call ex_env (Some ''gone'') (filter_refs ex_env (task ex_state)) =
     (EditScheduledTask ''gone'' (ex_task\<lparr>subscriptions := [''s1'']\<rparr>),
      Some (Raw ''no such task''))"
  by (simp add: ex_state_def ex_filter_refs persist_call_def truthy_str_def)
     (simp add: ex_env_def)

theorem handleSubmit_persistence_rejected_witness:
  "new_calls ex_state (handleSubmit ex_env (Some ''gone'') ex_state) =
     [EditScheduledTask ''gone'' (ex_task\<lparr>subscriptions := [''s1'']\<rparr>),
      ConsoleError (Raw ''no such task''), MessageError (Value (Raw ''no such task''))] \<and>
   HandleCancel \<notin> set (new_calls ex_state (handleSubmit ex_env (Some ''gone'') ex_state)) \<and>
   \<not> loading (handleSubmit ex_env (Some ''gone'') ex_state)"
  by (rule handleSubmit_persistence_rejected [OF ex_cron_ok ex_persist_call_gone])

subsection \<open>Add or edit\<close>

text \<open>
  Claim C4, as stated, fails for the empty id: \<open>if (props.id)\<close> tests the truthiness of the
  prop, and the empty string is falsy. A form opened with the id prop \<open>''''\<close> persists by
  \<open>addScheduledTask\<close>, not by \<open>editScheduledTask\<close> with that id.
\<close>

theorem handleSubmit_empty_id_adds:
  "new_calls ex_state (handleSubmit ex_env (Some []) ex_state) =
     [AddScheduledTask (ex_task\<lparr>subscriptions := [''s1'']\<rparr>), HandleCancel] \<and>
   EditScheduledTask [] (ex_task\<lparr>subscriptions := [''s1'']\<rparr>)
     \<notin> set (new_calls ex_state (handleSubmit ex_env (Some []) ex_state))"
  by (simp add: ex_new_calls persist_def persist_call_def truthy_str_def)
     (simp add: ex_env_def)

text \<open>
  Claim C4, amended: in a submission whose cron expression is accepted and whose
  persistence call resolves, a form opened with a non-empty id prop persists the filtered
  task by \<open>editScheduledTask\<close> with that id, and a form opened with no id prop or with
  the empty id persists it by \<open>addScheduledTask\<close>; in both cases the call is followed at
  once by \<open>handleCancel\<close>, and it is the only persistence call.
\<close>

theorem handleSubmit_edit_or_add:
  assumes "ValidateCron env (cron (task st)) = None"
    and "snd (persist_call env p (filter_refs env (task st))) = None"
  shows "(\<forall>i. p = Some i \<and> i \<noteq> [] \<longrightarrow>
            take 2 (new_calls st (handleSubmit env p st)) =
              [EditScheduledTask i (filter_refs env (task st)), HandleCancel]) \<and>
         (p = None \<or> p = Some [] \<longrightarrow>
            take 2 (new_calls st (handleSubmit env p st)) =
              [AddScheduledTask (filter_refs env (task st)), HandleCancel]) \<and>
         length (filter is_persistence (new_calls st (handleSubmit env p st))) = 1"
  using assms
  by (auto simp: handleSubmit_valid new_calls_def persist_def persist_call_cases truthy_prop_def
      truthy_str_def split: option.splits prod.splits if_splits)

lemma ex_persist_call_t1:
  "snd (persist_call ex_env (Some ''t1'') (filter_refs ex_env (task ex_state))) = None"
  by (simp add: persist_call_def truthy_str_def) (simp add: ex_env_def)

theorem handleSubmit_edit_or_add_witness:
  "take 2 (new_calls ex_state (handleSubmit ex_env (Some ''t1'') ex_state)) =
     [EditScheduledTask ''t1'' (ex_task\<lparr>subscriptions := [''s1'']\<rparr>), HandleCancel] \<and>
   length (filter is_persistence
     (new_calls ex_state (handleSubmit ex_env (Some ''t1'') ex_state))) = 1"
  using handleSubmit_edit_or_add [OF ex_cron_ok ex_persist_call_t1]
  by (simp add: ex_state_def ex_filter_refs)

subsection \<open>The submit control and the initial record\<close>

text \<open>
  Claim C5: the submit control is disabled exactly when the task's name is empty or its
  cron expression is empty, so a click on it runs \<open>handleSubmit\<close> only when both are
  non-empty, and does nothing otherwise.
\<close>

theorem submit_disabled_iff_empty:
  "(submit_disabled t \<longleftrightarrow> name t = [] \<or> cron t = []) \<and>
   click_submit env p st =
     (if name (task st) \<noteq> [] \<and> cron (task st) \<noteq> [] then handleSubmit env p st else st)"
  by (auto simp: submit_disabled_def click_submit_def truthy_str_def)

theorem submit_disabled_iff_empty_witness:
  "\<not> submit_disabled ex_task \<and> submit_disabled (ex_task\<lparr>name := []\<rparr>) \<and>
   submit_disabled (ex_task\<lparr>cron := []\<rparr>) \<and>
   click_submit ex_env None (ex_state\<lparr>task := ex_task\<lparr>cron := []\<rparr>\<rparr>) =
     ex_state\<lparr>task := ex_task\<lparr>cron := []\<rparr>\<rparr> \<and>
   click_submit ex_env None ex_state = handleSubmit ex_env None ex_state"
  using submit_disabled_iff_empty [of ex_task ex_env None ex_state]
    submit_disabled_iff_empty [of "ex_task\<lparr>name := []\<rparr>" ex_env None
      "ex_state\<lparr>task := ex_task\<lparr>cron := []\<rparr>\<rparr>"]
    submit_disabled_iff_empty [of "ex_task\<lparr>cron := []\<rparr>" ex_env None ex_state]
  by (simp add: ex_task_def ex_state_def)

text \<open>
  Claim C6: a form opened without an id prop starts from the record with the eleven
  fields of the task, holding the id that \<open>sampleID()\<close> returned, the empty name, the type
  \<open>RunScript\<close>, empty lists of subscriptions, rulesets and plugins, the empty script and
  cron expression, notification and disabled both false, and the last-run time 0.
\<close>

theorem initial_task_without_id:
  "initial_task fresh lookup None =
     \<lparr>id_t = fresh, name = [], type_t = RunScript, subscriptions = [], rulesets = [],
      plugins = [], script = [], cron = [], notification = False, disabled = False,
      lastTime = 0\<rparr>"
  by (simp add: initial_task_def default_task_def)

theorem initial_task_without_id_witness:
  "initial_task ''k3v9'' Map.empty None =
     \<lparr>id_t = ''k3v9'', name = [], type_t = RunScript, subscriptions = [], rulesets = [],
      plugins = [], script = [], cron = [], notification = False, disabled = False,
      lastTime = 0\<rparr>"
  by (rule initial_task_without_id)

subsection \<open>\<open>handleUse\<close> toggles an id\<close>

lemma findIndex_from_none:
  "\<not> (\<exists>x \<in> set xs. p x) \<Longrightarrow> findIndex_from p xs k = -1"
  by (induction xs arbitrary: k) auto

lemma findIndex_from_some:
  "\<exists>x \<in> set xs. p x \<Longrightarrow>
   findIndex_from p xs k = k + int (length (takeWhile (\<lambda>x. \<not> p x) xs))"
proof (induction xs arbitrary: k)
  case Nil
  then show ?case by simp
next
  case (Cons a xs)
  show ?case
  proof (cases "p a")
    case True
    then show ?thesis by simp
  next
    case False
    with Cons.prems have "\<exists>x \<in> set xs. p x" by auto
    from Cons.IH [OF this, of "k + 1"] False show ?thesis by simp
  qed
qed

lemma findIndex_eq:
  "findIndex (\<lambda>v. v = i) xs =
     (if i \<in> set xs then int (length (takeWhile (\<lambda>v. v \<noteq> i) xs)) else -1)"
  by (auto simp: findIndex_def findIndex_from_none findIndex_from_some)

lemma remove1_take_drop:
  "i \<in> set xs \<Longrightarrow>
   take (length (takeWhile (\<lambda>v. v \<noteq> i) xs)) xs @
   drop (Suc (length (takeWhile (\<lambda>v. v \<noteq> i) xs))) xs = remove1 i xs"
  by (induction xs) auto

lemma handleUse_eq:
  "handleUse list i = (if i \<in> set list then remove1 i list else list @ [i])"
  using length_takeWhile_le [of "\<lambda>v. v \<noteq> i" list]
  by (auto simp: handleUse_def findIndex_eq splice_def push_def Let_def remove1_take_drop min_def)

lemma handleUse_others:
  "filter (\<lambda>v. v \<noteq> i) (handleUse list i) = filter (\<lambda>v. v \<noteq> i) list"
  by (induction list) (auto simp: handleUse_eq split: if_splits)

text \<open>
  Claim C9: \<open>handleUse\<close> removes the first occurrence of the id when the list has it and
  appends the id at the end otherwise. On a list without duplicates it therefore flips
  the membership of the id and keeps the list free of duplicates, and two applications
  with the same id give a list with the elements of the original one. In every case the
  elements other than the id stay, in their order.
\<close>

theorem handleUse_toggles:
  "handleUse list i = (if i \<in> set list then remove1 i list else list @ [i]) \<and>
   (distinct list \<longrightarrow>
      distinct (handleUse list i) \<and>
      (i \<in> set (handleUse list i) \<longleftrightarrow> i \<notin> set list) \<and>
      set (handleUse (handleUse list i) i) = set list) \<and>
   filter (\<lambda>v. v \<noteq> i) (handleUse list i) = filter (\<lambda>v. v \<noteq> i) list"
proof -
  have toggled: "distinct list \<longrightarrow> distinct (handleUse list i) \<and> (i \<in> set (handleUse list i) \<longleftrightarrow> i \<notin> set list) \<and>
        set (handleUse (handleUse list i) i) = set list"
  proof (cases "i \<in> set list")
    case True
    show ?thesis
    proof
      assume d: "distinct list"
      then have "i \<notin> set (remove1 i list)" by simp
      with True d show "distinct (handleUse list i) \<and>
          (i \<in> set (handleUse list i) \<longleftrightarrow> i \<notin> set list) \<and>
          set (handleUse (handleUse list i) i) = set list"
        by (auto simp: handleUse_eq)
    qed
  next
    case False
    then show ?thesis by (simp add: handleUse_eq remove1_append)
  qed
  have first: "handleUse list i = (if i \<in> set list then remove1 i list else list @ [i])"
    by (rule handleUse_eq)
  have others: "filter (\<lambda>v. v \<noteq> i) (handleUse list i) = filter (\<lambda>v. v \<noteq> i) list"
    by (rule handleUse_others)
  from first toggled others show ?thesis by blast
qed

theorem handleUse_toggles_witness:
  "handleUse [''s1'', ''s2'', ''s3''] ''s2'' = [''s1'', ''s3''] \<and>
   handleUse [''s1'', ''s3''] ''s2'' = [''s1'', ''s3'', ''s2''] \<and>
   set (handleUse (handleUse [''s1'', ''s2'', ''s3''] ''s2'') ''s2'') =
     set [''s1'', ''s2'', ''s3'']"
proof -
  have d: "distinct [''s1'', ''s2'', ''s3'']" by simp
  from handleUse_toggles [of "[''s1'', ''s2'', ''s3'']" "''s2''"] d
  have c: "set (handleUse (handleUse [''s1'', ''s2'', ''s3''] ''s2'') ''s2'') =
      set [''s1'', ''s2'', ''s3'']"
    by blast
  from handleUse_toggles [of "[''s1'', ''s2'', ''s3'']" "''s2''"]
  have "handleUse [''s1'', ''s2'', ''s3''] ''s2'' =
      (if ''s2'' \<in> set [''s1'', ''s2'', ''s3''] then remove1 ''s2'' [''s1'', ''s2'', ''s3'']
       else [''s1'', ''s2'', ''s3''] @ [''s2''])"
    by blast
  then have a: "handleUse [''s1'', ''s2'', ''s3''] ''s2'' = [''s1'', ''s3'']" by simp
  from handleUse_toggles [of "[''s1'', ''s3'']" "''s2''"]
  have "handleUse [''s1'', ''s3''] ''s2'' =
      (if ''s2'' \<in> set [''s1'', ''s3''] then remove1 ''s2'' [''s1'', ''s3'']
       else [''s1'', ''s3''] @ [''s2''])"
    by blast
  then have b: "handleUse [''s1'', ''s3''] ''s2'' = [''s1'', ''s3'', ''s2'']" by simp
  from a b c show ?thesis by blast
qed

section \<open>Properties of the editor\<close>










declare watch_model.simps [simp del]

lemma watch_model_no_view: "cm_view c = None \<Longrightarrow> watch_model dispatch c content = c"
  by (subst watch_model.simps) simp

lemma watch_model_same:
  "cm_view c = Some v \<Longrightarrow> content = doc v \<Longrightarrow> watch_model dispatch c content = c"
  by (subst watch_model.simps) simp

lemma docChanged_watcher: "content \<noteq> doc v \<Longrightarrow> docChanged (watcher_tr v content)"
  by (auto simp: docChanged_def watcher_tr_def)

lemma watch_model_differs:
  assumes "cm_view c = Some v" "content \<noteq> doc v"
  shows "watch_model dispatch c content =
     (case dispatch v (watcher_tr v content) of
        Inl e \<Rightarrow>
          c\<lparr>watcher_dispatched := watcher_dispatched c @ [watcher_tr v content],
            uncaught := uncaught c @ [e]\<rparr>
      | Inr v' \<Rightarrow>
          c\<lparr>watcher_dispatched := watcher_dispatched c @ [watcher_tr v content],
            cm_view := Some v', model := doc v', emitted := emitted c @ [doc v']\<rparr>)"
proof (cases "dispatch v (watcher_tr v content)")
  case (Inl e)
  with assms show ?thesis by (subst watch_model.simps) (simp add: Let_def)
next
  case (Inr v')
  have "watch_model dispatch c content =
      watch_model dispatch
        (onChange (c\<lparr>watcher_dispatched := watcher_dispatched c @ [watcher_tr v content],
                      cm_view := Some v'\<rparr>) (doc v')) (doc v')"
    using assms Inr by (subst watch_model.simps) (simp add: Let_def docChanged_watcher)
  also have "\<dots> = onChange (c\<lparr>watcher_dispatched := watcher_dispatched c @ [watcher_tr v content],
                      cm_view := Some v'\<rparr>) (doc v')"
    by (rule watch_model_same [of _ v']) (simp_all add: onChange_def)
  finally show ?thesis using Inr by (simp add: onChange_def)
qed

lemma watch_model_dispatched:
  assumes "cm_view c = Some v" "content \<noteq> doc v"
  shows "watcher_dispatched (watch_model dispatch c content) =
     watcher_dispatched c @ [watcher_tr v content]"
  using watch_model_differs [OF assms, of dispatch]
  by (cases "dispatch v (watcher_tr v content)") simp_all

lemma watch_model_after_onChange:
  "cm_view c = Some v \<Longrightarrow>
   watch_model dispatch (onChange c (doc v)) (doc v) = onChange c (doc v)"
  by (rule watch_model_same [of _ v]) (simp_all add: onChange_def)

lemma watch_model_at_most_one:
  "length (watcher_dispatched (watch_model dispatch c content)) \<le>
     Suc (length (watcher_dispatched c))"
proof (cases "cm_view c")
  case None
  then show ?thesis by (simp add: watch_model_no_view)
next
  case (Some v)
  then show ?thesis
    by (cases "content = doc v") (simp_all add: watch_model_same watch_model_dispatched)
qed

lemma watch_model_only_when_differs:
  assumes "watcher_dispatched (watch_model dispatch c content) \<noteq> watcher_dispatched c"
  shows "\<exists>v. cm_view c = Some v \<and> content \<noteq> doc v"
proof (cases "cm_view c")
  case None
  with assms show ?thesis by (simp add: watch_model_no_view)
next
  case (Some v)
  with assms have "content \<noteq> doc v" by (auto simp: watch_model_same)
  with Some show ?thesis by simp
qed

text \<open>
  Claim C10: whatever CodeMirror does with a transaction, the watcher of the model hands
  one to \<open>view.dispatch\<close> only when there is a view and the new value of the model is not
  the view's document, and then it hands over exactly one: the replacement of the whole
  document by the new value. When there is no view, or the model already equals the
  document, as after a change made in the editor has reached the model through
  \<open>onChange\<close>, the watcher changes nothing. The cycle of watcher, update listener and
  \<open>onChange\<close> therefore ends: one run of the watcher dispatches at most once.
\<close>

theorem watch_model_dispatches_once:
  "(cm_view c = None \<longrightarrow> watch_model dispatch c content = c) \<and>
   (\<forall>v. cm_view c = Some v \<and> content = doc v \<longrightarrow> watch_model dispatch c content = c) \<and>
   (\<forall>v. cm_view c = Some v \<and> content \<noteq> doc v \<longrightarrow>
      watcher_dispatched (watch_model dispatch c content) =
        watcher_dispatched c @
          [\<lparr>change_from = 0, change_to = length (doc v), change_insert = content,
            selection = None\<rparr>]) \<and>
   (watcher_dispatched (watch_model dispatch c content) \<noteq> watcher_dispatched c \<longrightarrow>
      (\<exists>v. cm_view c = Some v \<and> content \<noteq> doc v)) \<and>
   (\<forall>v. cm_view c = Some v \<longrightarrow>
      watch_model dispatch (onChange c (doc v)) (doc v) = onChange c (doc v)) \<and>
   length (watcher_dispatched (watch_model dispatch c content)) \<le>
     Suc (length (watcher_dispatched c))"
  using watch_model_no_view [of c dispatch content] watch_model_same [of c _ content dispatch]
    watch_model_dispatched [of c _ content dispatch, unfolded watcher_tr_def]
    watch_model_only_when_differs [of dispatch c content]
    watch_model_after_onChange [of c _ dispatch]
    watch_model_at_most_one [of dispatch c content]
  by blast

text \<open>
  The claim on a view that holds \<open>a = 1\<close>: the same text is not dispatched, another text
  is dispatched once, and the text that \<open>onChange\<close> brought from the view is not dispatched.
\<close>

theorem watch_model_dispatches_once_witness:
  "watch_model (answers (Inr \<lparr>doc = ''b = 2'', sel = 0\<rparr>)) ex_component ''a = 1'' =
     ex_component \<and>
   watcher_dispatched
       (watch_model (answers (Inr \<lparr>doc = ''b = 2'', sel = 0\<rparr>)) ex_component ''b = 2'') =
     [\<lparr>change_from = 0, change_to = 5, change_insert = ''b = 2'', selection = None\<rparr>] \<and>
   watch_model (answers (Inr \<lparr>doc = ''b = 2'', sel = 0\<rparr>)) (onChange ex_component ''a = 1'')
       ''a = 1'' =
     onChange ex_component ''a = 1''"
  using watch_model_dispatches_once [of ex_component "answers (Inr \<lparr>doc = ''b = 2'', sel = 0\<rparr>)"
      "''a = 1''"]
    watch_model_dispatches_once [of ex_component "answers (Inr \<lparr>doc = ''b = 2'', sel = 0\<rparr>)"
      "''b = 2''"]
  by (simp add: ex_component_def)

section \<open>Properties of the store model\<close>

lemma same_below_refl: "same_below n h h"
  by (simp add: same_below_def)

lemma same_below_trans: "same_below n h h1 \<Longrightarrow> same_below n h1 h2 \<Longrightarrow> same_below n h h2"
  by (simp add: same_below_def)

lemma upd_obj_frame:
  assumes "owns n h t" and "\<And>ob. o_subscriptions (f ob) = o_subscriptions ob"
    and "\<And>ob. o_rulesets (f ob) = o_rulesets ob" and "\<And>ob. o_plugins (f ob) = o_plugins ob"
  shows "owns n (upd_obj h t f) t \<and> same_below n h (upd_obj h t f)"
  using assms by (auto simp: owns_def upd_obj_def same_below_def)

lemma use_at_frame:
  assumes "owns n h t" and "n \<le> a"
  shows "owns n (use_at h a i) t \<and> same_below n h (use_at h a i)"
  using assms by (auto simp: owns_def use_at_def same_below_def split: option.splits)

lemma filter_at_frame:
  assumes "owns n h t"
  shows "owns n (filter_at env h t) t \<and> same_below n h (filter_at env h t)"
  using assms
  by (auto simp: owns_def filter_at_def same_below_def new_arr_def upd_obj_def Let_def
      split: option.splits ScheduledTasksType.splits)

lemma mutate_frame:
  assumes "owns n h t"
  shows "owns n (mutate env t h m) t \<and> same_below n h (mutate env t h m)"
proof (cases m)
  case (UseSubscription i)
  from assms obtain ob where "objs h t = Some ob" "n \<le> o_subscriptions ob"
    by (auto simp: owns_def)
  with assms UseSubscription show ?thesis
    using use_at_frame [of n h t "o_subscriptions ob" i] by (simp add: mutate_def)
next
  case (UseRuleset i)
  from assms obtain ob where "objs h t = Some ob" "n \<le> o_rulesets ob"
    by (auto simp: owns_def)
  with assms UseRuleset show ?thesis
    using use_at_frame [of n h t "o_rulesets ob" i] by (simp add: mutate_def)
next
  case (UsePlugin i)
  from assms obtain ob where "objs h t = Some ob" "n \<le> o_plugins ob"
    by (auto simp: owns_def)
  with assms UsePlugin show ?thesis
    using use_at_frame [of n h t "o_plugins ob" i] by (simp add: mutate_def)
next
  case FilterRefs
  with assms show ?thesis using filter_at_frame [of n h t env] by (simp add: mutate_def)
qed (use assms in \<open>simp_all add: mutate_def upd_obj_frame\<close>)

lemma mutations_frame:
  "owns n h t \<Longrightarrow> owns n (mutations env t h ms) t \<and> same_below n h (mutations env t h ms)"
proof (induction ms arbitrary: h)
  case Nil
  then show ?case by (simp add: mutations_def same_below_refl)
next
  case (Cons m ms)
  from mutate_frame [OF Cons.prems, of env m]
  have o: "owns n (mutate env t h m) t" and s: "same_below n h (mutate env t h m)" by simp_all
  from Cons.IH [OF o] s show ?case
    by (auto simp: mutations_def intro: same_below_trans)
qed

lemma new_default_frame:
  "new_default h fresh = (t, h1) \<Longrightarrow> same_below (free h) h h1 \<and> free h \<le> free h1 \<and> owns (free h) h1 t"
  by (auto simp: new_default_def new_arr_def new_obj_def Let_def same_below_def owns_def)

lemma deepClone_frame:
  assumes "objs h s = Some ob"
  shows "\<exists>t h1. deepClone h s = Some (t, h1) \<and> owns (free h) h1 t \<and>
           same_below (free h) h h1 \<and> task_at h1 t = Some (task_of h ob)"
  using assms
  by (simp add: deepClone_def new_arr_def new_obj_def Let_def owns_def same_below_def
      task_at_def task_of_def arr_at_def)

lemma owns_mono: "owns n h t \<Longrightarrow> m \<le> n \<Longrightarrow> owns m h t"
  by (auto simp: owns_def)

lemma same_below_mono: "same_below n h h' \<Longrightarrow> m \<le> n \<Longrightarrow> same_below m h h'"
  by (auto simp: same_below_def)

lemma task_at_same_below:
  assumes "wf_heap h" "same_below (free h) h h'" "objs h s = Some ob"
  shows "objs h' s = Some ob \<and> task_at h' s = task_at h s"
proof -
  from assms(1,3) have lt: "s < free h" "o_subscriptions ob < free h" "o_rulesets ob < free h"
    "o_plugins ob < free h"
    by (auto simp: wf_heap_def dom_def)
  with assms(2,3) show ?thesis
    by (simp add: same_below_def task_at_def task_of_def arr_at_def)
qed

lemma form_setup_clones:
  assumes "wf_heap h" "lookup i = Some s" "objs h s = Some ob" "truthy_str i"
  shows "\<exists>t h1. form_setup h fresh lookup (Some i) = (t, h1) \<and> owns (free h) h1 t \<and>
           same_below (free h) h h1 \<and> task_at h1 t = task_at h s"
proof -
  obtain t0 h0 where nd: "new_default h fresh = (t0, h0)" by (cases "new_default h fresh")
  from new_default_frame [OF nd]
  have sb0: "same_below (free h) h h0" and le: "free h \<le> free h0" by simp_all
  from task_at_same_below [OF assms(1) sb0 assms(3)]
  have ob0: "objs h0 s = Some ob" and ta0: "task_at h0 s = task_at h s" by simp_all
  from deepClone_frame [OF ob0] obtain t h1 where
    dc: "deepClone h0 s = Some (t, h1)" and ow: "owns (free h0) h1 t"
    and sb1: "same_below (free h0) h0 h1" and ta: "task_at h1 t = Some (task_of h0 ob)"
    by blast
  have "form_setup h fresh lookup (Some i) = (t, h1)"
    using nd dc assms(2,4) by (simp add: form_setup_def)
  moreover have "owns (free h) h1 t" using ow le by (rule owns_mono)
  moreover have "same_below (free h) h h1"
    using sb0 same_below_mono [OF sb1 le] by (rule same_below_trans)
  moreover have "task_at h1 t = task_at h s"
  proof -
    have "task_at h0 s = Some (task_of h0 ob)" using ob0 by (simp add: task_at_def)
    with ta ta0 show ?thesis by simp
  qed
  ultimately show ?thesis by blast
qed

lemma deepClone_owns:
  "deepClone h s = Some (t, h1) \<Longrightarrow> owns (free h) h1 t \<and> same_below (free h) h h1"
  by (auto simp: deepClone_def new_arr_def new_obj_def Let_def owns_def same_below_def
      split: option.splits)

lemma form_setup_owns:
  assumes "form_setup h fresh lookup p = (t, h1)"
  shows "owns (free h) h1 t \<and> same_below (free h) h h1"
proof -
  obtain t0 h0 where nd: "new_default h fresh = (t0, h0)" by (cases "new_default h fresh")
  from new_default_frame [OF nd]
  have sb0: "same_below (free h) h h0" and le: "free h \<le> free h0"
    and ow0: "owns (free h) h0 t0" by simp_all
  show ?thesis
  proof (cases "\<exists>i s r. p = Some i \<and> truthy_str i \<and> lookup i = Some s \<and> deepClone h0 s = Some r")
    case True
    then obtain i s where c: "p = Some i" "truthy_str i" "lookup i = Some s"
      "deepClone h0 s = Some (t, h1)"
      using assms nd by (auto simp: form_setup_def)
    from deepClone_owns [OF c(4)] have "owns (free h0) h1 t" "same_below (free h0) h0 h1"
      by simp_all
    with le sb0 show ?thesis
      by (blast intro: owns_mono same_below_mono same_below_trans)
  next
    case False
    with assms nd have "t = t0" "h1 = h0"
      by (auto simp: form_setup_def split: option.splits if_splits)
    with ow0 sb0 show ?thesis by simp
  qed
qed

text \<open>
  Claim C8: in a well-formed store, the task that the form holds after its setup is never
  a stored object, and whatever the form then does to its task (the \<open>v-model\<close> edits, the
  \<open>handleUse\<close> toggles on its three arrays, the filtering of \<open>handleSubmit\<close>, in any number
  and order) leaves every object and array that existed before the setup as it was, so
  that every stored task reads the same afterwards. When the id prop is non-empty and
  resolves to the stored task at \<open>s\<close>, the form's task starts with the contents of that
  task: it is a deep clone of it.
\<close>

theorem form_leaves_store_unchanged:
  assumes "wf_heap h" and "form_setup h fresh lookup p = (t, h1)" and "objs h s = Some ob"
  shows "t \<noteq> s \<and>
         same_below (free h) h (mutations env t h1 ms) \<and>
         task_at (mutations env t h1 ms) s = task_at h s \<and>
         ((\<exists>i. p = Some i \<and> truthy_str i \<and> lookup i = Some s) \<longrightarrow>
            task_at h1 t = task_at h s)"
proof -
  from form_setup_owns [OF assms(2)]
  have ow: "owns (free h) h1 t" and sb: "same_below (free h) h h1" by simp_all
  from assms(1,3) have "s < free h" by (auto simp: wf_heap_def dom_def)
  with ow have ne: "t \<noteq> s" by (auto simp: owns_def)
  from mutations_frame [OF ow, of env ms] sb
  have sb2: "same_below (free h) h (mutations env t h1 ms)" by (blast intro: same_below_trans)
  have cl: "task_at h1 t = task_at h s" if "p = Some i" "truthy_str i" "lookup i = Some s" for i
    using form_setup_clones [of h lookup i s ob fresh] assms that by simp
  from task_at_same_below [OF assms(1) sb2 assms(3)] ne sb2 cl show ?thesis by blast
qed

lemma ex_heap_wf: "wf_heap ex_heap"
  by (auto simp: wf_heap_def ex_heap_def ex_obj_def split: if_splits)

lemma ex_task_at: "task_at ex_heap 3 = Some ex_task"
  by (simp add: task_at_def task_of_def arr_at_def ex_heap_def ex_obj_def ex_task_def)

theorem form_leaves_store_unchanged_witness:
  "fst (form_setup ex_heap ''k3v9'' ex_lookup (Some ''t1'')) \<noteq> 3 \<and>
   task_at (snd (form_setup ex_heap ''k3v9'' ex_lookup (Some ''t1'')))
     (fst (form_setup ex_heap ''k3v9'' ex_lookup (Some ''t1''))) = Some ex_task \<and>
   task_at
     (mutations ex_env (fst (form_setup ex_heap ''k3v9'' ex_lookup (Some ''t1'')))
        (snd (form_setup ex_heap ''k3v9'' ex_lookup (Some ''t1'')))
        [UseSubscription ''s1'', SetName ''weekly'', FilterRefs]) 3 = Some ex_task"
proof -
  have l: "ex_lookup ''t1'' = Some 3" by (simp add: ex_lookup_def)
  have o: "objs ex_heap 3 = Some ex_obj" by (simp add: ex_heap_def)
  have n: "truthy_str ''t1''" by (simp add: truthy_str_def)
  have p: "form_setup ex_heap ''k3v9'' ex_lookup (Some ''t1'') =
      (fst (form_setup ex_heap ''k3v9'' ex_lookup (Some ''t1'')),
       snd (form_setup ex_heap ''k3v9'' ex_lookup (Some ''t1'')))"
    by simp
  from l n have r: "\<exists>i. Some ''t1'' = Some i \<and> truthy_str i \<and> ex_lookup i = Some 3"
    by simp
  from form_leaves_store_unchanged [OF ex_heap_wf p o, of ex_env
      "[UseSubscription ''s1'', SetName ''weekly'', FilterRefs]"] r
  show ?thesis by (simp add: ex_task_at)
qed

text \<open>
  Without the clone the form would hold the stored object itself, and one click on a
  subscription card would change the stored task.
\<close>

lemma shared_setup_changes_store:
  "fst (form_setup_shared ex_heap ''k3v9'' ex_lookup (Some ''t1'')) = 3 \<and>
   task_at
     (mutations ex_env (fst (form_setup_shared ex_heap ''k3v9'' ex_lookup (Some ''t1'')))
        (snd (form_setup_shared ex_heap ''k3v9'' ex_lookup (Some ''t1'')))
        [UseSubscription ''s1'']) 3 = Some (ex_task\<lparr>subscriptions := [''s0'']\<rparr>)"
  by (simp add: form_setup_shared_def new_default_def new_arr_def new_obj_def Let_def
      ex_lookup_def truthy_str_def mutations_def mutate_def use_at_def ex_heap_def ex_obj_def
      handleUse_eq task_at_def task_of_def arr_at_def ex_task_def)

end
